theory Spec2Isabelle
  imports Complex_Main
begin

section \<open>Data model of the time-tracking tables (setup-all.sql)\<close>

text \<open>
  The time-tracking logic of the repository lives in \<^verbatim>\<open>setup-all.sql\<close> (table
  \<^verbatim>\<open>time_entries\<close>, its row-security policies, the two logic triggers and the reporting
  functions) and in the two React components that issue the statements
  (\<^verbatim>\<open>project-time-tracker.tsx\<close>, \<^verbatim>\<open>timer-widget.tsx\<close>).

  Conventions of the embedding:
  \<^item> a \<^verbatim>\<open>UUID\<close> is a natural number;
  \<^item> a \<^verbatim>\<open>TIMESTAMP WITH TIME ZONE\<close> is the number of microseconds since the epoch
    (the resolution PostgreSQL stores); the browser's \<^verbatim>\<open>Date\<close> counts milliseconds;
  \<^item> a \<^verbatim>\<open>DECIMAL\<close> is a rational number; \<^verbatim>\<open>ROUND(x, 2)\<close> is written out. The quotient
    \<^verbatim>\<open>duration_seconds::DECIMAL / 3600\<close> is kept exact (PostgreSQL keeps at least 16
    significant digits of it);
  \<^item> a nullable column is an \<open>option\<close>, \<open>None\<close> being \<^verbatim>\<open>NULL\<close>;
  \<^item> a statement that raises stores nothing and returns \<open>Inl\<close> of the error.
  Columns that no trigger, policy or reporting function reads (\<^verbatim>\<open>milestone_id\<close>,
  \<^verbatim>\<open>description\<close>, \<^verbatim>\<open>created_at\<close>, \<^verbatim>\<open>updated_at\<close>) are left out, and with them the
  \<^verbatim>\<open>update_updated_at\<close> trigger.
\<close>

type_synonym uuid = nat
type_synonym timestamptz = int
type_synonym numeric = rat

datatype time_entry_type = Manual | Timer

datatype sql_error =
    NumericValueOutOfRange
  | NotNullViolation
  | UniqueViolation
  | ForeignKeyViolation
  | RowSecurityViolation

record time_entry =
  te_id :: uuid
  te_user_id :: uuid
  te_project_id :: uuid
  te_task_id :: "uuid option"
  te_entry_type :: time_entry_type
  te_start_time :: "timestamptz option"
  te_end_time :: "timestamptz option"
  te_duration_seconds :: "int option"
  te_billable :: "bool option"
  te_hourly_rate :: "numeric option"
  te_is_running :: "bool option"

record project =
  p_name :: string
  p_user_id :: uuid
  p_hourly_rate :: "numeric option"

text \<open>
  \<^verbatim>\<open>projects.id\<close> is the primary key, so the table is a map from id to row. The rows of
  \<^verbatim>\<open>time_entries\<close> are kept as a list (the heap order); its primary key is checked by
  the statements below. \<open>project_assignments\<close> holds the pairs
  \<^verbatim>\<open>(project_id, user_id)\<close> that a session can read from that table.
\<close>

record database =
  time_entries :: "time_entry list"
  projects :: "uuid \<rightharpoonup> project"
  project_assignments :: "(uuid \<times> uuid) list"

text \<open>
  A session: \<^verbatim>\<open>auth.uid()\<close> (\<^verbatim>\<open>NULL\<close> without a signed-in user) and whether the role
  bypasses row security (the service role does, the browser's roles do not).
\<close>

record session =
  auth_uid :: "uuid option"
  bypass_rls :: bool

section \<open>Row-security policies on \<^verbatim>\<open>time_entries\<close> and \<^verbatim>\<open>projects\<close>\<close>

definition owns_time_entry :: "session \<Rightarrow> time_entry \<Rightarrow> bool" where
  \<comment> \<open>\<^verbatim>\<open>auth.uid() = user_id\<close>: the INSERT, UPDATE and DELETE policies.\<close>
  "owns_time_entry sess r = (auth_uid sess = Some (te_user_id r))"

definition owns_project_of :: "database \<Rightarrow> session \<Rightarrow> time_entry \<Rightarrow> bool" where
  \<comment> \<open>\<^verbatim>\<open>EXISTS (SELECT 1 FROM projects p WHERE p.id = time_entries.project_id AND p.user_id = auth.uid())\<close>\<close>
  "owns_project_of db sess r =
     (case projects db (te_project_id r) of
        None \<Rightarrow> False
      | Some p \<Rightarrow> auth_uid sess = Some (p_user_id p))"

definition time_entries_select_policy :: "database \<Rightarrow> session \<Rightarrow> time_entry \<Rightarrow> bool" where
  \<comment> \<open>"Users can view time entries for accessible projects"\<close>
  "time_entries_select_policy db sess r =
     (bypass_rls sess \<or> owns_time_entry sess r \<or> owns_project_of db sess r)"

definition time_entries_write_policy :: "session \<Rightarrow> time_entry \<Rightarrow> bool" where
  \<comment> \<open>"Users can insert / update / delete own time entries"\<close>
  "time_entries_write_policy sess r = (bypass_rls sess \<or> owns_time_entry sess r)"

definition projects_select_policy :: "database \<Rightarrow> session \<Rightarrow> uuid \<Rightarrow> project \<Rightarrow> bool" where
  \<comment> \<open>"Users can view their own or assigned projects"\<close>
  "projects_select_policy db sess pid p =
     (bypass_rls sess \<or> auth_uid sess = Some (p_user_id p)
      \<or> pid \<in> set (map fst (filter (\<lambda>pa. auth_uid sess = Some (snd pa)) (project_assignments db))))"

section \<open>The triggers\<close>

text \<open>
  \<^verbatim>\<open>EXTRACT(EPOCH FROM (end_time - start_time))::INTEGER\<close> for a difference of \<open>us\<close>
  microseconds: the seconds as a numeric, cast to a 32-bit integer. The cast rounds to
  the nearest integer, a half away from zero, and raises when the result does not fit.
\<close>

definition round_half_away :: "int \<Rightarrow> int \<Rightarrow> int" where
  \<comment> \<open>\<open>a / b\<close> rounded to the nearest integer, for \<open>0 < b\<close>\<close>
  "round_half_away a b =
     (if 0 \<le> a then (2 * a + b) div (2 * b) else - ((2 * (- a) + b) div (2 * b)))"

definition epoch_integer :: "int \<Rightarrow> sql_error + int" where
  "epoch_integer us =
     (let n = round_half_away us 1000000
      in if - 2147483648 \<le> n \<and> n \<le> 2147483647 then Inr n
         else Inl NumericValueOutOfRange)"

definition calculate_duration :: "time_entry \<Rightarrow> sql_error + time_entry" where
  "calculate_duration NEW =
     (case te_end_time NEW of
        None \<Rightarrow> Inr NEW
      | Some e \<Rightarrow>
          (case te_start_time NEW of
             None \<Rightarrow> Inr NEW
           | Some s \<Rightarrow>
               (case epoch_integer (e - s) of
                  Inl err \<Rightarrow> Inl err
                | Inr n \<Rightarrow>
                    Inr (NEW\<lparr>te_duration_seconds := Some n, te_is_running := Some False\<rparr>))))"

lemma calculate_duration_not_running:
  "calculate_duration NEW = Inr N1 \<Longrightarrow> te_is_running NEW \<noteq> Some True
     \<Longrightarrow> te_is_running N1 \<noteq> Some True"
  by (auto simp: calculate_duration_def split: option.splits sum.splits)

text \<open>What a statement checks on the row the BEFORE triggers hand back.\<close>

definition check_row :: "database \<Rightarrow> session \<Rightarrow> time_entry \<Rightarrow> sql_error + time_entry" where
  "check_row db sess NEW =
     (if \<not> time_entries_write_policy sess NEW then Inl RowSecurityViolation
      else if te_start_time NEW = None then Inl NotNullViolation
      else if projects db (te_project_id NEW) = None then Inl ForeignKeyViolation
      else Inr NEW)"

definition put_row :: "time_entry \<Rightarrow> time_entry list \<Rightarrow> time_entry list" where
  \<comment> \<open>the new version replaces the row of that id\<close>
  "put_row NEW tbl = map (\<lambda>r. if te_id r = te_id NEW then NEW else r) tbl"

text \<open>
  \<^verbatim>\<open>ensure_single_running_timer\<close> runs an \<^verbatim>\<open>UPDATE\<close> of its own on the table. That
  statement fires the BEFORE UPDATE triggers of every row it changes, in the order of
  their names: \<^verbatim>\<open>trigger_calculate_duration\<close>, then
  \<^verbatim>\<open>trigger_ensure_single_running_timer\<close> again. The function is not
  \<^verbatim>\<open>SECURITY DEFINER\<close>, so the statement sees the rows the UPDATE and SELECT policies
  give the session.
\<close>

function ensure_single_running_timer ::
    "database \<Rightarrow> session \<Rightarrow> timestamptz \<Rightarrow> time_entry \<Rightarrow> time_entry list \<Rightarrow> sql_error + time_entry list"
  and update_running ::
    "database \<Rightarrow> session \<Rightarrow> timestamptz \<Rightarrow> time_entry list \<Rightarrow> time_entry list \<Rightarrow> sql_error + time_entry list"
where
  "ensure_single_running_timer db sess now NEW tbl =
     (if te_is_running NEW = Some True
      then update_running db sess now
             (filter (\<lambda>r. te_user_id r = te_user_id NEW \<and> te_is_running r = Some True
                           \<and> te_id r \<noteq> te_id NEW
                           \<and> time_entries_write_policy sess r
                           \<and> time_entries_select_policy db sess r) tbl) tbl
      else Inr tbl)"
| "update_running db sess now [] tbl = Inr tbl"
| "update_running db sess now (r # rs) tbl =
     (case calculate_duration (r\<lparr>te_is_running := Some False, te_end_time := Some now\<rparr>) of
        Inl err \<Rightarrow> Inl err
      | Inr N1 \<Rightarrow>
          (case ensure_single_running_timer db sess now N1 tbl of
             Inl err \<Rightarrow> Inl err
           | Inr tbl1 \<Rightarrow>
               (case check_row db sess N1 of
                  Inl err \<Rightarrow> Inl err
                | Inr N2 \<Rightarrow> update_running db sess now rs (put_row N2 tbl1))))"
  by pat_completeness auto


termination
  apply (relation "measures
    [\<lambda>x. case x of
        Inl (db, sess, now, NEW, tbl) \<Rightarrow> (if te_is_running NEW = Some True then 2 else 0)
      | Inr (db, sess, now, rs, tbl) \<Rightarrow> 1,
     \<lambda>x. case x of
        Inl _ \<Rightarrow> 0
      | Inr (db, sess, now, rs, tbl) \<Rightarrow> length rs]")
  apply (auto dest: calculate_duration_not_running)
  done

section \<open>The statements the clients send\<close>

text \<open>
  The BEFORE ROW triggers of \<^verbatim>\<open>INSERT OR UPDATE\<close>, in the order of their names; then the
  row-security check of the new row and the NOT NULL constraint of \<^verbatim>\<open>start_time\<close>.
\<close>

definition before_row_triggers ::
    "database \<Rightarrow> session \<Rightarrow> timestamptz \<Rightarrow> time_entry \<Rightarrow> sql_error + (time_entry \<times> time_entry list)" where
  "before_row_triggers db sess now NEW =
     (case calculate_duration NEW of
        Inl err \<Rightarrow> Inl err
      | Inr N1 \<Rightarrow>
          (case ensure_single_running_timer db sess now N1 (time_entries db) of
             Inl err \<Rightarrow> Inl err
           | Inr tbl1 \<Rightarrow>
               (case check_row db sess N1 of
                  Inl err \<Rightarrow> Inl err
                | Inr N2 \<Rightarrow> Inr (N2, tbl1))))"

definition insert_time_entry ::
    "database \<Rightarrow> session \<Rightarrow> timestamptz \<Rightarrow> time_entry \<Rightarrow> sql_error + database" where
  \<comment> \<open>\<^verbatim>\<open>INSERT INTO time_entries\<close> of one row, the column defaults already filled in\<close>
  "insert_time_entry db sess now NEW =
     (case before_row_triggers db sess now NEW of
        Inl err \<Rightarrow> Inl err
      | Inr (N2, tbl1) \<Rightarrow>
          if te_id N2 \<in> set (map te_id tbl1) then Inl UniqueViolation
          else Inr (db\<lparr>time_entries := tbl1 @ [N2]\<rparr>))"

text \<open>
  The body of a PATCH request: the columns it names are assigned, the others keep their
  value. \<open>None\<close> is a column the request does not name.
\<close>

record time_entry_patch =
  set_user_id :: "uuid option"
  set_project_id :: "uuid option"
  set_task_id :: "uuid option option"
  set_entry_type :: "time_entry_type option"
  set_start_time :: "timestamptz option option"
  set_end_time :: "timestamptz option option"
  set_duration_seconds :: "int option option"
  set_billable :: "bool option option"
  set_hourly_rate :: "numeric option option"
  set_is_running :: "bool option option"

definition no_change :: time_entry_patch where
  "no_change = \<lparr>set_user_id = None, set_project_id = None, set_task_id = None,
     set_entry_type = None, set_start_time = None, set_end_time = None,
     set_duration_seconds = None, set_billable = None, set_hourly_rate = None,
     set_is_running = None\<rparr>"

definition assign :: "'a option \<Rightarrow> 'a \<Rightarrow> 'a" where
  "assign new old = (case new of None \<Rightarrow> old | Some v \<Rightarrow> v)"

definition apply_patch :: "time_entry_patch \<Rightarrow> time_entry \<Rightarrow> time_entry" where
  "apply_patch p r =
     r\<lparr>te_user_id := assign (set_user_id p) (te_user_id r),
       te_project_id := assign (set_project_id p) (te_project_id r),
       te_task_id := assign (set_task_id p) (te_task_id r),
       te_entry_type := assign (set_entry_type p) (te_entry_type r),
       te_start_time := assign (set_start_time p) (te_start_time r),
       te_end_time := assign (set_end_time p) (te_end_time r),
       te_duration_seconds := assign (set_duration_seconds p) (te_duration_seconds r),
       te_billable := assign (set_billable p) (te_billable r),
       te_hourly_rate := assign (set_hourly_rate p) (te_hourly_rate r),
       te_is_running := assign (set_is_running p) (te_is_running r)\<rparr>"

definition update_time_entry ::
    "database \<Rightarrow> session \<Rightarrow> timestamptz \<Rightarrow> time_entry_patch \<Rightarrow> uuid \<Rightarrow> sql_error + database" where
  \<comment> \<open>\<^verbatim>\<open>UPDATE time_entries SET ... WHERE id = eid\<close>; a row the policies hide is not
      matched, and the statement then changes nothing and raises nothing\<close>
  "update_time_entry db sess now p eid =
     (case find (\<lambda>r. te_id r = eid) (time_entries db) of
        None \<Rightarrow> Inr db
      | Some r \<Rightarrow>
          if \<not> (time_entries_write_policy sess r \<and> time_entries_select_policy db sess r)
          then Inr db
          else
            (case before_row_triggers db sess now (apply_patch p r) of
               Inl err \<Rightarrow> Inl err
             | Inr (N2, tbl1) \<Rightarrow> Inr (db\<lparr>time_entries := put_row N2 tbl1\<rparr>)))"

definition delete_time_entry :: "database \<Rightarrow> session \<Rightarrow> uuid \<Rightarrow> sql_error + database" where
  \<comment> \<open>\<^verbatim>\<open>DELETE FROM time_entries WHERE id = eid\<close>\<close>
  "delete_time_entry db sess eid =
     Inr (db\<lparr>time_entries :=
            filter (\<lambda>r. \<not> (te_id r = eid \<and> time_entries_write_policy sess r
                            \<and> time_entries_select_policy db sess r))
              (time_entries db)\<rparr>)"

text \<open>
  The stores that the statements can produce from an empty table. The last rule is a
  change of the other tables: \<^verbatim>\<open>project_id\<close> is declared \<^verbatim>\<open>ON DELETE CASCADE\<close>, so the
  entries of a project that disappears go with it.
\<close>

inductive reachable :: "database \<Rightarrow> bool" where
  reachable_init: "time_entries db = [] \<Longrightarrow> reachable db"
| reachable_insert:
    "reachable db \<Longrightarrow> insert_time_entry db sess now NEW = Inr db' \<Longrightarrow> reachable db'"
| reachable_update:
    "reachable db \<Longrightarrow> update_time_entry db sess now p eid = Inr db' \<Longrightarrow> reachable db'"
| reachable_delete:
    "reachable db \<Longrightarrow> delete_time_entry db sess eid = Inr db' \<Longrightarrow> reachable db'"
| reachable_projects:
    "reachable db \<Longrightarrow>
     reachable (db\<lparr>time_entries := filter (\<lambda>r. ps (te_project_id r) \<noteq> None) (time_entries db),
                   projects := ps, project_assignments := pas\<rparr>)"


section \<open>The browser's operations\<close>

text \<open>
  The components report the outcome with a toast. The browser's requests run under the
  signed-in user and never bypass row security. \<^verbatim>\<open>now\<close> is the server's \<^verbatim>\<open>NOW()\<close>,
  \<^verbatim>\<open>date_ms\<close> the browser's \<^verbatim>\<open>new Date()\<close> in milliseconds, \<^verbatim>\<open>new_id\<close> the value that
  \<^verbatim>\<open>uuid_generate_v4()\<close> gives the \<^verbatim>\<open>id\<close> column.
\<close>

datatype toast = ToastSuccess string | ToastError string

definition browser_session :: "uuid option \<Rightarrow> session" where
  "browser_session user = \<lparr>auth_uid = user, bypass_rls = False\<rparr>"



definition stop_patch :: "int \<Rightarrow> time_entry_patch" where
  \<comment> \<open>\<^verbatim>\<open>{ end_time: new Date().toISOString(), is_running: false }\<close>\<close>
  "stop_patch date_ms =
     no_change\<lparr>set_end_time := Some (Some (date_ms * 1000)), set_is_running := Some (Some False)\<rparr>"


definition deleteEntry :: "database \<Rightarrow> uuid option \<Rightarrow> uuid \<Rightarrow> toast option \<times> database" where
  \<comment> \<open>\<^verbatim>\<open>ProjectTimeTracker.deleteEntry\<close>\<close>
  "deleteEntry db user entryId =
     (case delete_time_entry db (browser_session user) entryId of
        Inl err \<Rightarrow> (Some (ToastError ''Failed to delete entry''), db)
      | Inr db' \<Rightarrow> (Some (ToastSuccess ''Time entry deleted''), db'))"

subsection \<open>The manual-entry dialog\<close>

text \<open>
  The fields of the form that reach the row: the start (date and time fields, as
  milliseconds), the duration in hours (\<open>None\<close> is the empty field), the billable switch
  and the optional rate. The \<^verbatim>\<open>Input\<close> elements carry the constraints the browser checks
  before it lets the form submit: the duration is \<^verbatim>\<open>required\<close>, \<^verbatim>\<open>min="0.25"\<close>,
  \<^verbatim>\<open>max="24"\<close>, \<^verbatim>\<open>step="0.25"\<close>; the rate, shown for a billable entry, is
  \<^verbatim>\<open>min="0"\<close>, \<^verbatim>\<open>step="0.01"\<close>.
\<close>

record manual_entry_form =
  f_task_id :: "uuid option"
  f_start_ms :: int
  f_duration_hours :: "rat option"
  f_billable :: bool
  f_hourly_rate :: "rat option"

definition is_whole :: "rat \<Rightarrow> bool" where
  "is_whole x = (of_int \<lfloor>x\<rfloor> = x)"

definition duration_input_valid :: "rat option \<Rightarrow> bool" where
  "duration_input_valid v =
     (case v of
        None \<Rightarrow> False
      | Some h \<Rightarrow> 1 / 4 \<le> h \<and> h \<le> 24 \<and> is_whole ((h - 1 / 4) / (1 / 4)))"

definition hourly_rate_input_valid :: "rat option \<Rightarrow> bool" where
  "hourly_rate_input_valid v =
     (case v of
        None \<Rightarrow> True
      | Some r \<Rightarrow> 0 \<le> r \<and> is_whole (r / (1 / 100)))"

definition form_valid :: "manual_entry_form \<Rightarrow> bool" where
  "form_valid f =
     (duration_input_valid (f_duration_hours f)
      \<and> (f_billable f \<longrightarrow> hourly_rate_input_valid (f_hourly_rate f)))"

definition time_clip :: "rat \<Rightarrow> int option" where
  \<comment> \<open>the time value of \<^verbatim>\<open>new Date(t)\<close>: truncated to a whole millisecond, invalid beyond
      the range of \<^verbatim>\<open>Date\<close>\<close>
  "time_clip t =
     (if \<bar>t\<bar> > 8640000000000000 then None
      else Some (if 0 \<le> t then \<lfloor>t\<rfloor> else \<lceil>t\<rceil>))"

definition handleSubmit ::
    "database \<Rightarrow> uuid option \<Rightarrow> timestamptz \<Rightarrow> uuid \<Rightarrow> uuid \<Rightarrow> manual_entry_form
       \<Rightarrow> toast option \<times> database" where
  \<comment> \<open>\<^verbatim>\<open>AddManualEntryDialog.handleSubmit\<close>; an empty duration parses to \<^verbatim>\<open>NaN\<close>, and
      \<^verbatim>\<open>toISOString\<close> of the invalid date throws inside the \<^verbatim>\<open>try\<close>\<close>
  "handleSubmit db user now new_id projectId f =
     (case user of
        None \<Rightarrow> (None, db)
      | Some uid \<Rightarrow>
          (case f_duration_hours f of
             None \<Rightarrow> (Some (ToastError ''Failed to add time entry''), db)
           | Some durationHours \<Rightarrow>
               (case time_clip (of_int (f_start_ms f) + durationHours * 60 * 60 * 1000) of
                  None \<Rightarrow> (Some (ToastError ''Failed to add time entry''), db)
                | Some end_ms \<Rightarrow>
                    (case insert_time_entry db (browser_session user) now
                            \<lparr>te_id = new_id, te_user_id = uid, te_project_id = projectId,
                             te_task_id = f_task_id f, te_entry_type = Manual,
                             te_start_time = Some (f_start_ms f * 1000),
                             te_end_time = Some (end_ms * 1000),
                             te_duration_seconds = None, te_billable = Some (f_billable f),
                             te_hourly_rate = f_hourly_rate f,
                             te_is_running = Some False\<rparr> of
                       Inl err \<Rightarrow> (Some (ToastError ''Failed to add time entry''), db)
                     | Inr db' \<Rightarrow> (Some (ToastSuccess ''Time entry added''), db')))))"

definition submit_manual_entry ::
    "database \<Rightarrow> uuid option \<Rightarrow> timestamptz \<Rightarrow> uuid \<Rightarrow> uuid \<Rightarrow> manual_entry_form
       \<Rightarrow> toast option \<times> database" where
  \<comment> \<open>pressing "Add Entry": the browser raises the \<^verbatim>\<open>submit\<close> event, and with it
      \<^verbatim>\<open>handleSubmit\<close>, only for a form whose constraints hold\<close>
  "submit_manual_entry db user now new_id projectId f =
     (if form_valid f then handleSubmit db user now new_id projectId f else (None, db))"

section \<open>The reporting functions\<close>

definition coalesce :: "'a option \<Rightarrow> 'a option \<Rightarrow> 'a \<Rightarrow> 'a" where
  \<comment> \<open>\<^verbatim>\<open>COALESCE(a, b, c)\<close> with a last argument that is not null\<close>
  "coalesce a b c = (case a of Some x \<Rightarrow> x | None \<Rightarrow> (case b of Some y \<Rightarrow> y | None \<Rightarrow> c))"

definition sql_sum :: "'a::monoid_add list \<Rightarrow> 'a option" where
  \<comment> \<open>\<^verbatim>\<open>SUM\<close> over the selected rows: \<^verbatim>\<open>NULL\<close> when there is none\<close>
  "sql_sum xs = (if xs = [] then None else Some (sum_list xs))"

definition round2 :: "numeric \<Rightarrow> numeric" where
  \<comment> \<open>\<^verbatim>\<open>ROUND(x, 2)\<close> of a numeric: to the nearest hundredth, a half away from zero\<close>
  "round2 x =
     (if 0 \<le> x then of_int \<lfloor>x * 100 + 1 / 2\<rfloor> / 100
      else - (of_int \<lfloor>- x * 100 + 1 / 2\<rfloor> / 100))"

text \<open>
  The three dashboard functions are not \<^verbatim>\<open>SECURITY DEFINER\<close>: their queries read the
  rows that the SELECT policies give the calling session.
\<close>

definition visible_time_entries :: "database \<Rightarrow> session \<Rightarrow> time_entry list" where
  "visible_time_entries db sess = filter (time_entries_select_policy db sess) (time_entries db)"

definition visible_project :: "database \<Rightarrow> session \<Rightarrow> uuid \<Rightarrow> project option" where
  "visible_project db sess pid =
     (case projects db pid of
        None \<Rightarrow> None
      | Some p \<Rightarrow> if projects_select_policy db sess pid p then Some p else None)"

definition get_project_total_hours :: "database \<Rightarrow> session \<Rightarrow> uuid \<Rightarrow> numeric" where
  "get_project_total_hours db sess p_project_id =
     (let v_total_seconds =
            (case sql_sum (map (\<lambda>r. case te_duration_seconds r of Some d \<Rightarrow> d | None \<Rightarrow> 0)
                            (filter (\<lambda>r. te_project_id r = p_project_id
                                          \<and> te_duration_seconds r \<noteq> None)
                               (visible_time_entries db sess))) of
               None \<Rightarrow> 0 | Some t \<Rightarrow> t)
      in round2 (of_int v_total_seconds / 3600))"

definition get_project_billable_hours :: "database \<Rightarrow> session \<Rightarrow> uuid \<Rightarrow> numeric" where
  "get_project_billable_hours db sess p_project_id =
     (let v_total_seconds =
            (case sql_sum (map (\<lambda>r. case te_duration_seconds r of Some d \<Rightarrow> d | None \<Rightarrow> 0)
                            (filter (\<lambda>r. te_project_id r = p_project_id
                                          \<and> te_billable r = Some True
                                          \<and> te_duration_seconds r \<noteq> None)
                               (visible_time_entries db sess))) of
               None \<Rightarrow> 0 | Some t \<Rightarrow> t)
      in round2 (of_int v_total_seconds / 3600))"

definition get_project_billable_amount :: "database \<Rightarrow> session \<Rightarrow> uuid \<Rightarrow> numeric" where
  "get_project_billable_amount db sess p_project_id =
     (let v_project_rate =
            (case visible_project db sess p_project_id of
               None \<Rightarrow> None | Some p \<Rightarrow> p_hourly_rate p);
          v_total_amount =
            (case sql_sum (map (\<lambda>r. (case te_duration_seconds r of
                                         Some d \<Rightarrow> of_int d / 3600 | None \<Rightarrow> 0)
                                     * coalesce (te_hourly_rate r) v_project_rate 0)
                            (filter (\<lambda>r. te_project_id r = p_project_id
                                          \<and> te_billable r = Some True
                                          \<and> te_duration_seconds r \<noteq> None)
                               (visible_time_entries db sess))) of
               None \<Rightarrow> 0 | Some t \<Rightarrow> t)
      in round2 v_total_amount)"

subsection \<open>\<^verbatim>\<open>get_time_entries_with_details\<close>\<close>

text \<open>
  The function is \<^verbatim>\<open>SECURITY DEFINER\<close>: it reads the tables with the rights of its
  owner, past the policies, and its own \<^verbatim>\<open>WHERE\<close> clause names \<^verbatim>\<open>auth.uid()\<close>.
  \<^verbatim>\<open>tasks\<close> is joined with \<^verbatim>\<open>LEFT JOIN\<close> on its primary key, which neither adds nor
  drops a row; the task title is left out. \<^verbatim>\<open>DATE(start_time)\<close> is the day in UTC, as
  days since the epoch.
\<close>

record time_entry_details =
  d_id :: uuid
  d_user_id :: uuid
  d_project_id :: uuid
  d_project_name :: string
  d_task_id :: "uuid option"
  d_entry_type :: time_entry_type
  d_start_time :: "timestamptz option"
  d_end_time :: "timestamptz option"
  d_duration_seconds :: "int option"
  d_duration_hours :: "numeric option"
  d_billable :: "bool option"
  d_hourly_rate :: "numeric option"
  d_amount :: "numeric option"
  d_is_running :: "bool option"

definition details :: "time_entry \<Rightarrow> project \<Rightarrow> time_entry_details" where
  \<comment> \<open>the SELECT list, for an entry \<open>te\<close> joined with its project \<open>p\<close>\<close>
  "details te p =
     \<lparr>d_id = te_id te, d_user_id = te_user_id te, d_project_id = te_project_id te,
      d_project_name = p_name p, d_task_id = te_task_id te,
      d_entry_type = te_entry_type te, d_start_time = te_start_time te,
      d_end_time = te_end_time te, d_duration_seconds = te_duration_seconds te,
      d_duration_hours =
        (case te_duration_seconds te of
           None \<Rightarrow> None | Some d \<Rightarrow> Some (round2 (of_int d / 3600))),
      d_billable = te_billable te, d_hourly_rate = te_hourly_rate te,
      d_amount =
        (case te_duration_seconds te of
           None \<Rightarrow> None
         | Some d \<Rightarrow>
             Some (round2 ((of_int d / 3600) * coalesce (te_hourly_rate te) (p_hourly_rate p) 0))),
      d_is_running = te_is_running te\<rparr>"

definition date_of :: "timestamptz \<Rightarrow> int" where
  "date_of ts = ts div 86400000000"

definition start_desc :: "timestamptz option \<Rightarrow> timestamptz option \<Rightarrow> bool" where
  \<comment> \<open>\<open>a\<close> may stand before \<open>b\<close> under \<^verbatim>\<open>ORDER BY ... DESC\<close>, which puts \<^verbatim>\<open>NULL\<close> first\<close>
  "start_desc a b =
     (case a of
        None \<Rightarrow> True
      | Some x \<Rightarrow> (case b of None \<Rightarrow> False | Some y \<Rightarrow> y \<le> x))"

fun insert_desc :: "time_entry_details \<Rightarrow> time_entry_details list \<Rightarrow> time_entry_details list" where
  "insert_desc x [] = [x]"
| "insert_desc x (y # ys) =
     (if start_desc (d_start_time x) (d_start_time y) then x # y # ys
      else y # insert_desc x ys)"

definition order_by_start_time_desc :: "time_entry_details list \<Rightarrow> time_entry_details list" where
  "order_by_start_time_desc xs = foldr insert_desc xs []"

definition where_clause ::
    "session \<Rightarrow> uuid option \<Rightarrow> int option \<Rightarrow> int option \<Rightarrow> time_entry \<Rightarrow> project \<Rightarrow> bool" where
  \<comment> \<open>the \<^verbatim>\<open>WHERE\<close> clause, for an entry \<open>te\<close> joined with its project \<open>p\<close>; a comparison
      with a \<^verbatim>\<open>NULL\<close> does not select the row\<close>
  "where_clause sess p_project_id p_start_date p_end_date te p =
     ((p_project_id = None \<or> p_project_id = Some (te_project_id te))
      \<and> (case p_start_date of
            None \<Rightarrow> True
          | Some d \<Rightarrow> (case te_start_time te of None \<Rightarrow> False | Some s \<Rightarrow> d \<le> date_of s))
      \<and> (case p_end_date of
            None \<Rightarrow> True
          | Some d \<Rightarrow> (case te_start_time te of None \<Rightarrow> False | Some s \<Rightarrow> date_of s \<le> d))
      \<and> auth_uid sess = Some (p_user_id p))"

definition get_time_entries_with_details ::
    "database \<Rightarrow> session \<Rightarrow> uuid option \<Rightarrow> int option \<Rightarrow> int option \<Rightarrow> time_entry_details list" where
  "get_time_entries_with_details db sess p_project_id p_start_date p_end_date =
     order_by_start_time_desc
       (concat (map (\<lambda>te.
          case projects db (te_project_id te) of
            None \<Rightarrow> []
          | Some p \<Rightarrow>
              if where_clause sess p_project_id p_start_date p_end_date te p
              then [details te p] else [])
          (time_entries db)))"



section \<open>What the triggers do to the table\<close>

text \<open>
  \<open>force_stopped now r y\<close>: \<open>y\<close> is the version of \<open>r\<close> that the \<^verbatim>\<open>UPDATE\<close> inside
  \<^verbatim>\<open>ensure_single_running_timer\<close> hands to the table, its \<^verbatim>\<open>SET\<close> clause followed by
  \<^verbatim>\<open>calculate_duration\<close>.
\<close>

definition force_stopped :: "timestamptz \<Rightarrow> time_entry \<Rightarrow> time_entry \<Rightarrow> bool" where
  "force_stopped now r y =
     (calculate_duration (r\<lparr>te_is_running := Some False, te_end_time := Some now\<rparr>) = Inr y)"

lemma ensure_single_not_running:
  "te_is_running N \<noteq> Some True \<Longrightarrow> ensure_single_running_timer db sess now N tbl = Inr tbl"
  by simp

declare ensure_single_running_timer.simps [simp del]
declare update_running.simps(2) [simp del]

lemma check_row_Inr:
  "check_row db sess N = Inr N2 \<longleftrightarrow>
     N2 = N \<and> time_entries_write_policy sess N \<and> te_start_time N \<noteq> None
     \<and> projects db (te_project_id N) \<noteq> None"
  by (auto simp: check_row_def)

lemma force_stopped_fields:
  assumes "force_stopped now r y"
  shows "te_id y = te_id r" "te_user_id y = te_user_id r" "te_project_id y = te_project_id r"
    "te_start_time y = te_start_time r" "te_end_time y = Some now" "te_is_running y = Some False"
    "te_billable y = te_billable r" "te_hourly_rate y = te_hourly_rate r"
    "te_task_id y = te_task_id r" "te_entry_type y = te_entry_type r"
  using assms
  by (auto simp: force_stopped_def calculate_duration_def split: option.splits sum.splits)

lemma update_running_Cons:
  "update_running db sess now (r # rs) tbl =
     (case calculate_duration (r\<lparr>te_is_running := Some False, te_end_time := Some now\<rparr>) of
        Inl err \<Rightarrow> Inl err
      | Inr N1 \<Rightarrow>
          (case check_row db sess N1 of
             Inl err \<Rightarrow> Inl err
           | Inr N2 \<Rightarrow> update_running db sess now rs (put_row N2 tbl)))"
proof (cases "calculate_duration (r\<lparr>te_is_running := Some False, te_end_time := Some now\<rparr>)")
  case (Inl err)
  then show ?thesis by (simp add: update_running.simps(2))
next
  case (Inr N1)
  then have "te_is_running N1 \<noteq> Some True"
    by (auto dest: calculate_duration_not_running)
  with Inr show ?thesis by (simp add: update_running.simps(2) ensure_single_not_running)
qed

lemma update_running_rows:
  "update_running db sess now rs tbl = Inr tbl' \<Longrightarrow>
     list_all2 (\<lambda>x y. te_id y = te_id x \<and>
        (y = x \<and> te_id x \<notin> te_id ` set rs
         \<or> (\<exists>r\<in>set rs. te_id r = te_id x \<and> force_stopped now r y \<and> check_row db sess y = Inr y))) tbl tbl'"
proof (induction rs arbitrary: tbl)
  case Nil
  then show ?case by (simp add: list_all2_same list.rel_refl)
next
  case (Cons r rs)
  from Cons.prems obtain N where N: "force_stopped now r N"
    and ok: "check_row db sess N = Inr N"
    and rest: "update_running db sess now rs (put_row N tbl) = Inr tbl'"
    by (auto simp: update_running_Cons force_stopped_def check_row_Inr split: sum.splits)
  have idN: "te_id N = te_id r" using N by (rule force_stopped_fields)
  from Cons.IH[OF rest] have IH: "list_all2 (\<lambda>x y. te_id y = te_id x \<and>
        (y = x \<and> te_id x \<notin> te_id ` set rs
         \<or> (\<exists>r\<in>set rs. te_id r = te_id x \<and> force_stopped now r y \<and> check_row db sess y = Inr y))) (put_row N tbl) tbl'" .
  have "list_all2 (\<lambda>x y. te_id y = te_id x \<and>
        (y = x \<and> te_id x \<notin> te_id ` set (r # rs)
         \<or> (\<exists>r\<in>set (r # rs). te_id r = te_id x \<and> force_stopped now r y \<and> check_row db sess y = Inr y))) tbl tbl'"
    using IH unfolding put_row_def list_all2_map1
  proof (rule list_all2_mono)
    fix x y
    assume "te_id y = te_id (if te_id x = te_id N then N else x) \<and>
       (y = (if te_id x = te_id N then N else x) \<and>
        te_id (if te_id x = te_id N then N else x) \<notin> te_id ` set rs \<or>
        (\<exists>r\<in>set rs. te_id r = te_id (if te_id x = te_id N then N else x) \<and> force_stopped now r y \<and> check_row db sess y = Inr y))"
    then show "te_id y = te_id x \<and>
        (y = x \<and> te_id x \<notin> te_id ` set (r # rs)
         \<or> (\<exists>r\<in>set (r # rs). te_id r = te_id x \<and> force_stopped now r y \<and> check_row db sess y = Inr y))"
      using N idN ok by (auto split: if_splits)
  qed
  then show ?case .
qed


definition target :: "database \<Rightarrow> session \<Rightarrow> time_entry \<Rightarrow> time_entry \<Rightarrow> bool" where
  "target db sess N r =
     (te_is_running N = Some True \<and> te_user_id r = te_user_id N \<and> te_is_running r = Some True
      \<and> te_id r \<noteq> te_id N \<and> time_entries_write_policy sess r
      \<and> time_entries_select_policy db sess r)"

lemma ensure_single_rows:
  assumes "ensure_single_running_timer db sess now N tbl = Inr tbl1"
  shows "list_all2 (\<lambda>x y. te_id y = te_id x \<and>
        (y = x \<and> \<not> target db sess N x
         \<or> (\<exists>r\<in>set tbl. target db sess N r \<and> te_id r = te_id x \<and> force_stopped now r y
                \<and> check_row db sess y = Inr y))) tbl tbl1"
proof (cases "te_is_running N = Some True")
  case False
  with assms have "tbl1 = tbl" by (simp add: ensure_single_not_running)
  with False show ?thesis by (simp add: list_all2_same target_def)
next
  case True
  let ?rs = "filter (target db sess N) tbl"
  from True assms have "update_running db sess now ?rs tbl = Inr tbl1"
    by (simp add: ensure_single_running_timer.simps target_def[abs_def])
  from update_running_rows[OF this] show ?thesis
    by (rule list.rel_mono_strong) force
qed

lemma write_policy_user:
  "te_user_id a = te_user_id b \<Longrightarrow> time_entries_write_policy sess a = time_entries_write_policy sess b"
  by (simp add: time_entries_write_policy_def owns_time_entry_def)

lemma write_policy_select:
  "time_entries_write_policy sess a \<Longrightarrow> time_entries_select_policy db sess a"
  by (auto simp: time_entries_write_policy_def time_entries_select_policy_def)

lemma ensure_single_ids:
  assumes "ensure_single_running_timer db sess now N tbl = Inr tbl1"
  shows "map te_id tbl1 = map te_id tbl"
proof -
  from ensure_single_rows[OF assms] have "list_all2 (\<lambda>x y. te_id x = te_id y) tbl tbl1"
    by (rule list_all2_mono) auto
  then show ?thesis by (simp add: list.rel_map list.rel_eq[symmetric] list_all2_conv_all_nth nth_equalityI)
qed

lemma ensure_single_set:
  assumes "ensure_single_running_timer db sess now N tbl = Inr tbl1" and "y \<in> set tbl1"
  shows "y \<in> set tbl \<and> \<not> target db sess N y
         \<or> (\<exists>r\<in>set tbl. target db sess N r \<and> force_stopped now r y \<and> check_row db sess y = Inr y)"
proof -
  from assms(2) obtain i where i: "i < length tbl1" "y = tbl1 ! i"
    by (auto simp: in_set_conv_nth)
  define x where "x = tbl ! i"
  from ensure_single_rows[OF assms(1)] i have "x \<in> set tbl"
    and "y = x \<and> \<not> target db sess N x
         \<or> (\<exists>r\<in>set tbl. target db sess N r \<and> te_id r = te_id x \<and> force_stopped now r y
                \<and> check_row db sess y = Inr y)"
    by (auto simp: list_all2_conv_all_nth x_def)
  then show ?thesis by auto
qed

lemma before_row_triggers_Inr:
  "before_row_triggers db sess now NEW = Inr (N2, tbl1) \<longleftrightarrow>
     calculate_duration NEW = Inr N2 \<and> check_row db sess N2 = Inr N2
     \<and> ensure_single_running_timer db sess now N2 (time_entries db) = Inr tbl1"
  by (auto simp: before_row_triggers_def check_row_def split: sum.splits if_splits)


definition row_ok :: "database \<Rightarrow> time_entry \<Rightarrow> bool" where
  "row_ok db r =
     (te_start_time r \<noteq> None \<and> projects db (te_project_id r) \<noteq> None
      \<and> (te_end_time r \<noteq> None \<longrightarrow> te_is_running r = Some False)
      \<and> (\<forall>e s. te_end_time r = Some e \<longrightarrow> te_start_time r = Some s \<longrightarrow>
            (\<exists>d. epoch_integer (e - s) = Inr d \<and> te_duration_seconds r = Some d)))"

lemma calculate_check_row_ok:
  "calculate_duration NEW = Inr N2 \<Longrightarrow> check_row db sess N2 = Inr N2 \<Longrightarrow> row_ok db N2"
  by (auto simp: calculate_duration_def check_row_def row_ok_def
           split: option.splits sum.splits if_splits)

lemma force_stopped_row_ok:
  "force_stopped now r y \<Longrightarrow> check_row db sess y = Inr y \<Longrightarrow> row_ok db y"
  unfolding force_stopped_def by (rule calculate_check_row_ok)

lemma set_put_row: "set (put_row N tbl) \<subseteq> insert N (set tbl)"
  by (auto simp: put_row_def)

lemma ids_put_row: "te_id N = eid \<Longrightarrow> map te_id (put_row N tbl) = map te_id tbl"
  by (induction tbl) (auto simp: put_row_def)

lemma te_id_calculate_duration: "calculate_duration NEW = Inr N \<Longrightarrow> te_id N = te_id NEW"
  by (auto simp: calculate_duration_def split: option.splits sum.splits)

lemma te_user_id_calculate_duration: "calculate_duration NEW = Inr N \<Longrightarrow> te_user_id N = te_user_id NEW"
  by (auto simp: calculate_duration_def split: option.splits sum.splits)

lemma te_id_apply_patch [simp]: "te_id (apply_patch p r) = te_id r"
  by (simp add: apply_patch_def)

text \<open>What a successful statement leaves in the table.\<close>

lemma insert_time_entry_Inr:
  "insert_time_entry db sess now NEW = Inr db' \<longleftrightarrow>
     (\<exists>N2 tbl1. before_row_triggers db sess now NEW = Inr (N2, tbl1)
        \<and> te_id N2 \<notin> set (map te_id tbl1) \<and> db' = db\<lparr>time_entries := tbl1 @ [N2]\<rparr>)"
  by (auto simp: insert_time_entry_def split: sum.splits prod.splits)

lemma update_time_entry_Inr:
  "update_time_entry db sess now p eid = Inr db' \<Longrightarrow>
     db' = db \<or>
     (\<exists>r N2 tbl1. find (\<lambda>r. te_id r = eid) (time_entries db) = Some r
        \<and> before_row_triggers db sess now (apply_patch p r) = Inr (N2, tbl1)
        \<and> db' = db\<lparr>time_entries := put_row N2 tbl1\<rparr>)"
  by (auto simp: update_time_entry_def split: option.splits sum.splits prod.splits if_splits)

definition all_ok :: "database \<Rightarrow> bool" where
  "all_ok db = (\<forall>r\<in>set (time_entries db). row_ok db r)"

lemma triggers_all_ok:
  assumes "all_ok db" and "before_row_triggers db sess now NEW = Inr (N2, tbl1)"
  shows "row_ok db N2" and "\<forall>y\<in>set tbl1. row_ok db y"
proof -
  from assms(2) have cd: "calculate_duration NEW = Inr N2" and ck: "check_row db sess N2 = Inr N2"
    and es: "ensure_single_running_timer db sess now N2 (time_entries db) = Inr tbl1"
    by (simp_all add: before_row_triggers_Inr)
  show "row_ok db N2" using cd ck by (rule calculate_check_row_ok)
  show "\<forall>y\<in>set tbl1. row_ok db y"
  proof
    fix y assume "y \<in> set tbl1"
    from ensure_single_set[OF es this] assms(1) show "row_ok db y"
      by (auto simp: all_ok_def dest: force_stopped_row_ok)
  qed
qed

lemma row_ok_time_entries [simp]: "row_ok (db\<lparr>time_entries := t\<rparr>) r = row_ok db r"
  by (simp add: row_ok_def)

lemma reachable_all_ok: "reachable db \<Longrightarrow> all_ok db"
proof (induction rule: reachable.induct)
  case (reachable_init db)
  then show ?case by (simp add: all_ok_def)
next
  case (reachable_insert db sess now NEW db')
  then obtain N2 tbl1 where t: "before_row_triggers db sess now NEW = Inr (N2, tbl1)"
    and db': "db' = db\<lparr>time_entries := tbl1 @ [N2]\<rparr>"
    by (auto simp: insert_time_entry_Inr)
  from triggers_all_ok[OF reachable_insert.IH t] db' show ?case
    by (auto simp: all_ok_def)
next
  case (reachable_update db sess now p eid db')
  from update_time_entry_Inr[OF reachable_update.hyps(2)] show ?case
  proof
    assume "db' = db" with reachable_update.IH show ?thesis by simp
  next
    assume "\<exists>r N2 tbl1. find (\<lambda>r. te_id r = eid) (time_entries db) = Some r
        \<and> before_row_triggers db sess now (apply_patch p r) = Inr (N2, tbl1)
        \<and> db' = db\<lparr>time_entries := put_row N2 tbl1\<rparr>"
    then obtain r N2 tbl1 where t: "before_row_triggers db sess now (apply_patch p r) = Inr (N2, tbl1)"
      and db': "db' = db\<lparr>time_entries := put_row N2 tbl1\<rparr>" by blast
    from triggers_all_ok[OF reachable_update.IH t] db' set_put_row[of N2 tbl1] show ?thesis
      by (auto simp: all_ok_def)
  qed
next
  case (reachable_delete db sess eid db')
  then show ?case by (auto simp: all_ok_def delete_time_entry_def)
next
  case (reachable_projects db ps pas)
  then show ?case by (auto simp: all_ok_def row_ok_def)
qed


text \<open>The primary key and the single running timer.\<close>

definition single_running :: "time_entry list \<Rightarrow> bool" where
  "single_running tbl =
     (\<forall>a\<in>set tbl. \<forall>b\<in>set tbl.
        te_is_running a = Some True \<and> te_is_running b = Some True
        \<and> te_user_id a = te_user_id b \<longrightarrow> te_id a = te_id b)"

lemma triggers_ids:
  assumes "before_row_triggers db sess now NEW = Inr (N2, tbl1)"
  shows "map te_id tbl1 = map te_id (time_entries db)" and "te_id N2 = te_id NEW"
  using assms
  by (auto simp: before_row_triggers_Inr dest: ensure_single_ids te_id_calculate_duration)

lemma reachable_distinct: "reachable db \<Longrightarrow> distinct (map te_id (time_entries db))"
proof (induction rule: reachable.induct)
  case (reachable_init db)
  then show ?case by simp
next
  case (reachable_insert db sess now NEW db')
  then obtain N2 tbl1 where t: "before_row_triggers db sess now NEW = Inr (N2, tbl1)"
    and fresh: "te_id N2 \<notin> set (map te_id tbl1)"
    and db': "db' = db\<lparr>time_entries := tbl1 @ [N2]\<rparr>"
    by (auto simp: insert_time_entry_Inr)
  from triggers_ids(1)[OF t] fresh reachable_insert.IH db' show ?case by simp
next
  case (reachable_update db sess now p eid db')
  from update_time_entry_Inr[OF reachable_update.hyps(2)] show ?case
  proof
    assume "db' = db" with reachable_update.IH show ?thesis by simp
  next
    assume "\<exists>r N2 tbl1. find (\<lambda>r. te_id r = eid) (time_entries db) = Some r
        \<and> before_row_triggers db sess now (apply_patch p r) = Inr (N2, tbl1)
        \<and> db' = db\<lparr>time_entries := put_row N2 tbl1\<rparr>"
    then obtain r N2 tbl1 where t: "before_row_triggers db sess now (apply_patch p r) = Inr (N2, tbl1)"
      and db': "db' = db\<lparr>time_entries := put_row N2 tbl1\<rparr>" by blast
    have "map te_id (put_row N2 tbl1) = map te_id tbl1" by (rule ids_put_row) simp
    with triggers_ids(1)[OF t] reachable_update.IH db' show ?thesis by simp
  qed
next
  case (reachable_delete db sess eid db')
  then show ?case by (auto simp: delete_time_entry_def distinct_map_filter)
next
  case (reachable_projects db pas ps)
  then show ?case by (simp add: distinct_map_filter)
qed

text \<open>
  After the triggers have run for a row that is running, no other row of its user is.
\<close>

lemma triggers_others_stopped:
  assumes t: "before_row_triggers db sess now NEW = Inr (N2, tbl1)"
    and run: "te_is_running N2 = Some True"
    and y: "y \<in> set tbl1" "te_user_id y = te_user_id N2" "te_is_running y = Some True"
  shows "te_id y = te_id N2"
proof -
  from t have ck: "check_row db sess N2 = Inr N2"
    and es: "ensure_single_running_timer db sess now N2 (time_entries db) = Inr tbl1"
    by (simp_all add: before_row_triggers_Inr)
  from ck have wp: "time_entries_write_policy sess N2" by (simp add: check_row_Inr)
  with write_policy_user[OF y(2), of sess] have wy: "time_entries_write_policy sess y" by simp
  have "\<not> target db sess N2 y"
    using ensure_single_set[OF es y(1)]
  proof
    assume "y \<in> set (time_entries db) \<and> \<not> target db sess N2 y"
    then show ?thesis ..
  next
    assume "\<exists>r\<in>set (time_entries db). target db sess N2 r \<and> force_stopped now r y
              \<and> check_row db sess y = Inr y"
    then obtain r where "force_stopped now r y" by blast
    then have "te_is_running y = Some False" by (rule force_stopped_fields)
    with y(3) show ?thesis by simp
  qed
  moreover have "time_entries_select_policy db sess y" using wy by (rule write_policy_select)
  ultimately show ?thesis using run y(2,3) wy unfolding target_def by blast
qed

lemma triggers_running_old:
  assumes t: "before_row_triggers db sess now NEW = Inr (N2, tbl1)"
    and y: "y \<in> set tbl1" "te_is_running y = Some True"
  shows "y \<in> set (time_entries db)"
proof -
  from t have es: "ensure_single_running_timer db sess now N2 (time_entries db) = Inr tbl1"
    by (simp add: before_row_triggers_Inr)
  show ?thesis
    using ensure_single_set[OF es y(1)]
  proof
    assume "y \<in> set (time_entries db) \<and> \<not> target db sess N2 y"
    then show ?thesis ..
  next
    assume "\<exists>r\<in>set (time_entries db). target db sess N2 r \<and> force_stopped now r y
              \<and> check_row db sess y = Inr y"
    then obtain r where "force_stopped now r y" by blast
    then have "te_is_running y = Some False" by (rule force_stopped_fields)
    with y(2) show ?thesis by simp
  qed
qed

lemma triggers_single_running:
  assumes "single_running (time_entries db)"
    and t: "before_row_triggers db sess now NEW = Inr (N2, tbl1)"
  shows "single_running (tbl1 @ [N2])"
  unfolding single_running_def
proof (intro ballI impI)
  fix a b
  assume a: "a \<in> set (tbl1 @ [N2])" and b: "b \<in> set (tbl1 @ [N2])"
    and r: "te_is_running a = Some True \<and> te_is_running b = Some True \<and> te_user_id a = te_user_id b"
  show "te_id a = te_id b"
  proof -
    consider "a = N2" "b = N2" | "a = N2" "b \<in> set tbl1" | "a \<in> set tbl1" "b = N2"
      | "a \<in> set tbl1" "b \<in> set tbl1"
      using a b by auto
    then show ?thesis
    proof cases
      case 1
      then show ?thesis by simp
    next
      case 2
      with r have "te_id b = te_id N2" by (intro triggers_others_stopped[OF t]) simp_all
      with 2 show ?thesis by simp
    next
      case 3
      with r have "te_id a = te_id N2" by (intro triggers_others_stopped[OF t]) simp_all
      with 3 show ?thesis by simp
    next
      case 4
      with r have "a \<in> set (time_entries db)" "b \<in> set (time_entries db)"
        by (auto intro: triggers_running_old[OF t])
      with assms(1) r show ?thesis unfolding single_running_def by blast
    qed
  qed
qed

lemma single_running_subset:
  "single_running tbl \<Longrightarrow> set tbl' \<subseteq> set tbl \<Longrightarrow> single_running tbl'"
  unfolding single_running_def by blast

lemma reachable_single_running: "reachable db \<Longrightarrow> single_running (time_entries db)"
proof (induction rule: reachable.induct)
  case (reachable_init db)
  then show ?case by (simp add: single_running_def)
next
  case (reachable_insert db sess now NEW db')
  then obtain N2 tbl1 where t: "before_row_triggers db sess now NEW = Inr (N2, tbl1)"
    and db': "db' = db\<lparr>time_entries := tbl1 @ [N2]\<rparr>"
    by (auto simp: insert_time_entry_Inr)
  from triggers_single_running[OF reachable_insert.IH t] db' show ?case by simp
next
  case (reachable_update db sess now p eid db')
  from update_time_entry_Inr[OF reachable_update.hyps(2)] show ?case
  proof
    assume "db' = db" with reachable_update.IH show ?thesis by simp
  next
    assume "\<exists>r N2 tbl1. find (\<lambda>r. te_id r = eid) (time_entries db) = Some r
        \<and> before_row_triggers db sess now (apply_patch p r) = Inr (N2, tbl1)
        \<and> db' = db\<lparr>time_entries := put_row N2 tbl1\<rparr>"
    then obtain r N2 tbl1 where t: "before_row_triggers db sess now (apply_patch p r) = Inr (N2, tbl1)"
      and db': "db' = db\<lparr>time_entries := put_row N2 tbl1\<rparr>" by blast
    have "set (put_row N2 tbl1) \<subseteq> set (tbl1 @ [N2])" using set_put_row[of N2 tbl1] by auto
    with triggers_single_running[OF reachable_update.IH t] have "single_running (put_row N2 tbl1)"
      by (rule single_running_subset)
    with db' show ?thesis by simp
  qed
next
  case (reachable_delete db sess eid db')
  have "single_running (filter (\<lambda>r. \<not> (te_id r = eid \<and> time_entries_write_policy sess r
                            \<and> time_entries_select_policy db sess r)) (time_entries db))"
    using reachable_delete.IH by (rule single_running_subset) simp
  with reachable_delete.hyps(2) show ?case by (auto simp: delete_time_entry_def)
next
  case (reachable_projects db pas ps)
  have "single_running (filter (\<lambda>r. ps (te_project_id r) \<noteq> None) (time_entries db))"
    using reachable_projects.IH by (rule single_running_subset) simp
  then show ?case by simp
qed

lemma at_most_one:
  assumes "distinct (map f xs)" and "\<And>a b. a \<in> set xs \<Longrightarrow> b \<in> set xs \<Longrightarrow> P a \<Longrightarrow> P b \<Longrightarrow> f a = f b"
  shows "length (filter P xs) \<le> 1"
  using assms
proof (induction xs)
  case Nil
  then show ?case by simp
next
  case (Cons x xs)
  have d: "distinct (map f xs)" and nx: "f x \<notin> f ` set xs" using Cons.prems(1) by simp_all
  show ?case
  proof (cases "P x")
    case True
    have "\<not> P y" if "y \<in> set xs" for y
    proof
      assume "P y"
      have "f x = f y" by (rule Cons.prems(2)) (use that True \<open>P y\<close> in simp_all)
      with nx that show False by blast
    qed
    then have "filter P xs = []"
      by (simp add: filter_empty_conv)
    with True show ?thesis by simp
  next
    case False
    have "length (filter P xs) \<le> 1"
      by (rule Cons.IH[OF d]) (rule Cons.prems(2), simp_all)
    with False show ?thesis by simp
  qed
qed


definition demo_projects :: "uuid \<rightharpoonup> project" where
  "demo_projects =
     [10 \<mapsto> \<lparr>p_name = ''P'', p_user_id = 7, p_hourly_rate = Some 50\<rparr>,
      20 \<mapsto> \<lparr>p_name = ''Q'', p_user_id = 7, p_hourly_rate = None\<rparr>]"

definition demo_db0 :: database where
  "demo_db0 = \<lparr>time_entries = [], projects = demo_projects, project_assignments = []\<rparr>"

definition demo_e1 :: time_entry where
  "demo_e1 = \<lparr>te_id = 101, te_user_id = 7, te_project_id = 10, te_task_id = None,
     te_entry_type = Timer, te_start_time = Some 0, te_end_time = None,
     te_duration_seconds = None, te_billable = Some True, te_hourly_rate = None,
     te_is_running = Some True\<rparr>"

definition demo_e2 :: time_entry where
  "demo_e2 = \<lparr>te_id = 102, te_user_id = 7, te_project_id = 20, te_task_id = None,
     te_entry_type = Timer, te_start_time = Some 3600000000, te_end_time = None,
     te_duration_seconds = None, te_billable = Some True, te_hourly_rate = None,
     te_is_running = Some True\<rparr>"

definition demo_e1_stopped :: time_entry where
  "demo_e1_stopped = demo_e1\<lparr>te_end_time := Some 3600000000,
     te_duration_seconds := Some 3600, te_is_running := Some False\<rparr>"

definition demo_db1 :: database where
  "demo_db1 = demo_db0\<lparr>time_entries := [demo_e1]\<rparr>"

definition demo_db2 :: database where
  "demo_db2 = demo_db0\<lparr>time_entries := [demo_e1_stopped, demo_e2]\<rparr>"

lemmas demo_defs = demo_db0_def demo_db1_def demo_db2_def demo_e1_def demo_e2_def
  demo_e1_stopped_def demo_projects_def

lemmas statement_defs = insert_time_entry_def update_time_entry_def before_row_triggers_def
  calculate_duration_def check_row_def epoch_integer_def round_half_away_def put_row_def
  time_entries_write_policy_def time_entries_select_policy_def owns_time_entry_def
  owns_project_of_def browser_session_def ensure_single_running_timer.simps
  update_running.simps apply_patch_def assign_def no_change_def

lemma demo_start1:
  "insert_time_entry demo_db0 (browser_session (Some 7)) 0 demo_e1 = Inr demo_db1"
  by (simp add: demo_defs statement_defs)

lemma demo_start2:
  "insert_time_entry demo_db1 (browser_session (Some 7)) 3600000000 demo_e2 = Inr demo_db2"
  by (simp add: demo_defs statement_defs)

lemma demo_db2_reachable: "reachable demo_db2"
proof -
  have "reachable demo_db0" by (rule reachable_init) (simp add: demo_db0_def)
  then have "reachable demo_db1" using demo_start1 by (rule reachable_insert)
  then show ?thesis using demo_start2 by (rule reachable_insert)
qed


section \<open>The properties\<close>

text \<open>
  C1. In every store that the INSERT, UPDATE and DELETE statements can produce from an
  empty table, with the two triggers fired on every row they write, each user has at most
  one time entry whose \<^verbatim>\<open>is_running\<close> is true.
\<close>

theorem single_running_timer_per_user:
  assumes "reachable db"
  shows "length (filter (\<lambda>r. te_user_id r = u \<and> te_is_running r = Some True)
                    (time_entries db)) \<le> 1"
proof -
  have d: "distinct (map te_id (time_entries db))"
    using assms by (rule reachable_distinct)
  have s: "single_running (time_entries db)"
    using assms by (rule reachable_single_running)
  have "te_id a = te_id b"
    if "a \<in> set (time_entries db)" "b \<in> set (time_entries db)"
      "te_user_id a = u \<and> te_is_running a = Some True"
      "te_user_id b = u \<and> te_is_running b = Some True" for a b
  proof -
    from that(3,4) have "te_is_running a = Some True \<and> te_is_running b = Some True
        \<and> te_user_id a = te_user_id b" by simp
    with s that(1,2) show ?thesis unfolding single_running_def by blast
  qed
  with d show ?thesis
    by (rule at_most_one[where f = te_id])
qed

theorem single_running_timer_per_user_witness:
  "reachable demo_db2
   \<and> length (filter (\<lambda>r. te_user_id r = 7 \<and> te_is_running r = Some True)
               (time_entries demo_db2)) \<le> 1
   \<and> filter (\<lambda>r. te_user_id r = 7 \<and> te_is_running r = Some True) (time_entries demo_db2)
       = [demo_e2]"
proof -
  have r: "reachable demo_db2" by (rule demo_db2_reachable)
  have "filter (\<lambda>r. te_user_id r = 7 \<and> te_is_running r = Some True) (time_entries demo_db2)
       = [demo_e2]"
    by (simp add: demo_defs)
  with single_running_timer_per_user[OF r, of 7] r show ?thesis by simp
qed

text \<open>
  C9. In every such store, a time entry whose \<^verbatim>\<open>end_time\<close> is not null has
  \<^verbatim>\<open>is_running = FALSE\<close>: \<^verbatim>\<open>calculate_duration\<close> forces it on every insert or update
  that leaves an end time in the row.
\<close>

theorem end_time_forces_not_running:
  assumes "reachable db" and "r \<in> set (time_entries db)" and "te_end_time r \<noteq> None"
  shows "te_is_running r = Some False"
proof -
  from assms(1) have "all_ok db" by (rule reachable_all_ok)
  with assms(2) have "row_ok db r" by (simp add: all_ok_def)
  then have "te_end_time r \<noteq> None \<longrightarrow> te_is_running r = Some False"
    unfolding row_ok_def by (elim conjE)
  then show ?thesis using assms(3) by (rule mp)
qed

theorem end_time_forces_not_running_witness:
  "reachable demo_db2 \<and> demo_e1_stopped \<in> set (time_entries demo_db2)
   \<and> te_end_time demo_e1_stopped \<noteq> None \<and> te_is_running demo_e1_stopped = Some False"
proof -
  have r: "reachable demo_db2" by (rule demo_db2_reachable)
  have m: "demo_e1_stopped \<in> set (time_entries demo_db2)" by (simp add: demo_db2_def)
  have e: "te_end_time demo_e1_stopped \<noteq> None" by (simp add: demo_e1_stopped_def)
  from end_time_forces_not_running[OF r m e] r m e show ?thesis by simp
qed


lemma half_div_bounds:
  fixes a b :: int
  assumes "0 < b"
  shows "\<bar>2 * (b * ((2 * a + b) div (2 * b)) - a)\<bar> \<le> b"
proof -
  define q where "q = (2 * a + b) div (2 * b)"
  define m where "m = (2 * a + b) mod (2 * b)"
  have "2 * a + b = (2 * b) * q + m" by (simp add: q_def m_def)
  then have e: "2 * a + b = 2 * (b * q) + m" by (simp add: mult.assoc)
  have "0 \<le> m" "m < 2 * b" using assms by (simp_all add: m_def)
  with e have "\<bar>2 * (b * q - a)\<bar> \<le> b" by (simp add: algebra_simps)
  then show ?thesis by (simp add: q_def)
qed

lemma round_half_away_nearest:
  assumes "0 < b"
  shows "\<bar>2 * (b * round_half_away a b - a)\<bar> \<le> b"
proof (cases "0 \<le> a")
  case True
  with half_div_bounds[OF assms, of a] show ?thesis by (simp add: round_half_away_def)
next
  case False
  have "\<bar>2 * (b * ((2 * (- a) + b) div (2 * b)) - (- a))\<bar> \<le> b"
    using assms by (rule half_div_bounds)
  also have "2 * (b * ((2 * (- a) + b) div (2 * b)) - (- a))
      = - (2 * (b * (- ((2 * (- a) + b) div (2 * b))) - a))" by (simp add: algebra_simps)
  finally show ?thesis using False by (simp add: round_half_away_def)
qed

lemma round_half_away_whole:
  assumes "0 < b"
  shows "round_half_away (b * n) b = n"
proof -
  have "\<bar>2 * (b * round_half_away (b * n) b - b * n)\<bar> \<le> b"
    using assms by (rule round_half_away_nearest)
  then have "\<bar>b * (2 * (round_half_away (b * n) b - n))\<bar> \<le> b * 1"
    by (simp add: algebra_simps)
  then have "b * \<bar>2 * (round_half_away (b * n) b - n)\<bar> \<le> b * 1"
    using assms by (simp add: abs_mult)
  then have "\<bar>2 * (round_half_away (b * n) b - n)\<bar> \<le> 1"
    using assms by (simp only: mult_le_cancel_left_pos)
  then show ?thesis by presburger
qed

lemma epoch_integer_Inr:
  "epoch_integer us = Inr n \<Longrightarrow> n = round_half_away us 1000000"
  by (auto simp: epoch_integer_def Let_def split: if_splits)

definition stored_as :: "database \<Rightarrow> uuid \<Rightarrow> time_entry \<Rightarrow> bool" where
  \<comment> \<open>the table holds a row of that id, and holds it as \<open>row\<close>\<close>
  "stored_as db eid row =
     (eid \<in> te_id ` set (time_entries db)
      \<and> (\<forall>r\<in>set (time_entries db). te_id r = eid \<longrightarrow> r = row))"

lemma calculate_duration_both:
  assumes "calculate_duration NEW = Inr N2" "te_start_time NEW = Some s" "te_end_time NEW = Some e"
  shows "N2 = NEW\<lparr>te_duration_seconds := Some (round_half_away (e - s) 1000000),
                    te_is_running := Some False\<rparr>"
  using assms
  by (auto simp: calculate_duration_def split: sum.splits dest: epoch_integer_Inr)

lemma insert_stored:
  assumes "insert_time_entry db sess now NEW = Inr db'"
  shows "\<exists>N2. calculate_duration NEW = Inr N2 \<and> stored_as db' (te_id NEW) N2"
proof -
  from assms obtain N2 tbl1 where t: "before_row_triggers db sess now NEW = Inr (N2, tbl1)"
    and fresh: "te_id N2 \<notin> set (map te_id tbl1)"
    and db': "db' = db\<lparr>time_entries := tbl1 @ [N2]\<rparr>"
    by (auto simp: insert_time_entry_Inr)
  from t have cd: "calculate_duration NEW = Inr N2" by (simp add: before_row_triggers_Inr)
  have id: "te_id N2 = te_id NEW" using t by (rule triggers_ids)
  have "r = N2" if "r \<in> set (tbl1 @ [N2])" "te_id r = te_id NEW" for r
  proof (cases "r \<in> set tbl1")
    case True
    then have "te_id r \<in> set (map te_id tbl1)" by simp
    with fresh id that(2) show ?thesis by simp
  next
    case False
    with that(1) show ?thesis by simp
  qed
  then have "stored_as db' (te_id NEW) N2"
    unfolding stored_as_def db' using id by (simp add: image_iff)
  with cd show ?thesis by blast
qed

lemma update_stored:
  assumes "update_time_entry db sess now p eid = Inr db'"
    and "find (\<lambda>r. te_id r = eid) (time_entries db) = Some r"
    and "time_entries_write_policy sess r"
  shows "\<exists>N2. calculate_duration (apply_patch p r) = Inr N2 \<and> stored_as db' eid N2"
proof -
  from assms(3) have "time_entries_select_policy db sess r" by (rule write_policy_select)
  with assms obtain N2 tbl1 where t: "before_row_triggers db sess now (apply_patch p r) = Inr (N2, tbl1)"
    and db': "db' = db\<lparr>time_entries := put_row N2 tbl1\<rparr>"
    by (auto simp: update_time_entry_def split: sum.splits)
  from t have cd: "calculate_duration (apply_patch p r) = Inr N2" by (simp add: before_row_triggers_Inr)
  have id: "te_id N2 = eid" using triggers_ids(2)[OF t] assms(2) by (auto dest: find_Some_iff[THEN iffD1])
  have ids: "map te_id tbl1 = map te_id (time_entries db)" using t by (rule triggers_ids)
  from assms(2) have "eid \<in> set (map te_id (time_entries db))"
    by (auto simp: find_Some_iff)
  with ids have "eid \<in> te_id ` set tbl1" by (metis set_map)
  then have "stored_as db' eid N2"
    using id db' by (auto simp: stored_as_def put_row_def)
  with cd show ?thesis by blast
qed


definition demo_manual :: time_entry where
  \<comment> \<open>a row whose sender supplies a duration and a running flag of its own\<close>
  "demo_manual = \<lparr>te_id = 103, te_user_id = 7, te_project_id = 10, te_task_id = None,
     te_entry_type = Manual, te_start_time = Some 0, te_end_time = Some 5400500000,
     te_duration_seconds = Some 999, te_billable = Some True, te_hourly_rate = None,
     te_is_running = Some True\<rparr>"

definition demo_db_manual :: database where
  "demo_db_manual = demo_db0\<lparr>time_entries :=
     [demo_manual\<lparr>te_duration_seconds := Some 5401, te_is_running := Some False\<rparr>]\<rparr>"

definition demo_e2_stopped :: time_entry where
  "demo_e2_stopped = demo_e2\<lparr>te_end_time := Some 5400000000,
     te_duration_seconds := Some 1800, te_is_running := Some False\<rparr>"

definition demo_db3 :: database where
  "demo_db3 = demo_db0\<lparr>time_entries := [demo_e1_stopped, demo_e2_stopped]\<rparr>"

lemma demo_insert_manual:
  "insert_time_entry demo_db0 (browser_session (Some 7)) 7 demo_manual = Inr demo_db_manual"
  by (simp add: demo_defs demo_manual_def demo_db_manual_def statement_defs)

lemma demo_stop2:
  "update_time_entry demo_db2 (browser_session (Some 7)) 5400000123 (stop_patch 5400000) 102
     = Inr demo_db3"
  by (simp add: demo_defs demo_db3_def demo_e2_stopped_def stop_patch_def statement_defs)

text \<open>
  C3. An INSERT or UPDATE that leaves both \<^verbatim>\<open>start_time\<close> and \<^verbatim>\<open>end_time\<close> in the row stores
  \<^verbatim>\<open>duration_seconds\<close> as their difference in whole seconds, whatever duration the
  statement supplied: the row is stored with the duration overwritten (and \<^verbatim>\<open>is_running\<close>
  false). The whole seconds are the difference rounded to the nearest second, so a
  difference of \<open>n\<close> seconds is stored as \<open>n\<close>.
\<close>

theorem duration_is_derived:
  "(insert_time_entry db sess now NEW = Inr db'
      \<and> te_start_time NEW = Some s \<and> te_end_time NEW = Some e
    \<longrightarrow> stored_as db' (te_id NEW)
          (NEW\<lparr>te_duration_seconds := Some (round_half_away (e - s) 1000000),
                 te_is_running := Some False\<rparr>))
   \<and> (update_time_entry dbu sessu nowu p eid = Inr dbu'
        \<and> find (\<lambda>r. te_id r = eid) (time_entries dbu) = Some r
        \<and> time_entries_write_policy sessu r
        \<and> te_start_time (apply_patch p r) = Some su \<and> te_end_time (apply_patch p r) = Some eu
      \<longrightarrow> stored_as dbu' eid
            ((apply_patch p r)\<lparr>te_duration_seconds := Some (round_half_away (eu - su) 1000000),
                                 te_is_running := Some False\<rparr>))
   \<and> \<bar>2 * (1000000 * round_half_away d 1000000 - d)\<bar> \<le> 1000000
   \<and> round_half_away (1000000 * n) 1000000 = n"
proof (intro conjI impI)
  assume a: "insert_time_entry db sess now NEW = Inr db'
      \<and> te_start_time NEW = Some s \<and> te_end_time NEW = Some e"
  then obtain N2 where "calculate_duration NEW = Inr N2" "stored_as db' (te_id NEW) N2"
    using insert_stored by blast
  with a calculate_duration_both[of NEW N2 s e]
  show "stored_as db' (te_id NEW)
          (NEW\<lparr>te_duration_seconds := Some (round_half_away (e - s) 1000000),
                 te_is_running := Some False\<rparr>)" by simp
next
  assume a: "update_time_entry dbu sessu nowu p eid = Inr dbu'
        \<and> find (\<lambda>r. te_id r = eid) (time_entries dbu) = Some r
        \<and> time_entries_write_policy sessu r
        \<and> te_start_time (apply_patch p r) = Some su \<and> te_end_time (apply_patch p r) = Some eu"
  then obtain N2 where "calculate_duration (apply_patch p r) = Inr N2" "stored_as dbu' eid N2"
    using update_stored by blast
  with a calculate_duration_both[of "apply_patch p r" N2 su eu]
  show "stored_as dbu' eid
            ((apply_patch p r)\<lparr>te_duration_seconds := Some (round_half_away (eu - su) 1000000),
                                 te_is_running := Some False\<rparr>)" by simp
next
  show "\<bar>2 * (1000000 * round_half_away d 1000000 - d)\<bar> \<le> 1000000"
    by (rule round_half_away_nearest) simp
next
  show "round_half_away (1000000 * n) 1000000 = n"
    by (rule round_half_away_whole) simp
qed

theorem duration_is_derived_witness:
  "insert_time_entry demo_db0 (browser_session (Some 7)) 7 demo_manual = Inr demo_db_manual
   \<and> te_duration_seconds demo_manual = Some 999
   \<and> stored_as demo_db_manual 103
        (demo_manual\<lparr>te_duration_seconds := Some 5401, te_is_running := Some False\<rparr>)
   \<and> update_time_entry demo_db2 (browser_session (Some 7)) 5400000123 (stop_patch 5400000) 102
        = Inr demo_db3
   \<and> stored_as demo_db3 102 demo_e2_stopped"
proof -
  have f: "find (\<lambda>r. te_id r = 102) (time_entries demo_db2) = Some demo_e2"
    by (simp add: demo_defs)
  have w: "time_entries_write_policy (browser_session (Some 7)) demo_e2"
    by (simp add: demo_defs statement_defs)
  have t: "te_start_time demo_manual = Some 0 \<and> te_end_time demo_manual = Some 5400500000
      \<and> te_id demo_manual = 103 \<and> te_duration_seconds demo_manual = Some 999"
    by (simp add: demo_manual_def)
  have u: "te_start_time (apply_patch (stop_patch 5400000) demo_e2) = Some 3600000000
      \<and> te_end_time (apply_patch (stop_patch 5400000) demo_e2) = Some 5400000000"
    by (simp add: demo_defs stop_patch_def statement_defs)
  have v: "(apply_patch (stop_patch 5400000) demo_e2)
      \<lparr>te_duration_seconds := Some (round_half_away (5400000000 - 3600000000) 1000000),
        te_is_running := Some False\<rparr> = demo_e2_stopped"
    by (simp add: demo_defs demo_e2_stopped_def stop_patch_def statement_defs)
  have x: "round_half_away (5400500000 - 0) 1000000 = 5401"
    by (simp add: round_half_away_def)
  from duration_is_derived[of demo_db0 "browser_session (Some 7)" 7 demo_manual demo_db_manual
      0 5400500000 demo_db2 "browser_session (Some 7)" 5400000123 "stop_patch 5400000" 102
      demo_db3 demo_e2 3600000000 5400000000 0 0]
    demo_insert_manual demo_stop2 f w t u v x
  show ?thesis by simp
qed



lemma filter_single:
  assumes "length (filter P xs) \<le> 1" "x \<in> set xs" "P x"
  shows "filter P xs = [x]"
proof -
  from assms(2,3) have "x \<in> set (filter P xs)" by simp
  with assms(1) show ?thesis by (cases "filter P xs") auto
qed



















text \<open>
  C8 (as claimed: deleting an entry of another user fails with an authorization error).
  The DELETE policy hides the row from the statement, which then deletes nothing and
  raises nothing: user 8 deleting entry 101 of user 7 gets no error from the statement,
  and the component reports "Time entry deleted".
\<close>

theorem delete_foreign_entry_counterexample:
  "demo_e1_stopped \<in> set (time_entries demo_db2) \<and> te_id demo_e1_stopped = 101
   \<and> te_user_id demo_e1_stopped \<noteq> 8
   \<and> delete_time_entry demo_db2 (browser_session (Some 8)) 101 = Inr demo_db2
   \<and> deleteEntry demo_db2 (Some 8) 101 = (Some (ToastSuccess ''Time entry deleted''), demo_db2)"
  by (simp add: deleteEntry_def delete_time_entry_def demo_defs statement_defs)

text \<open>
  C8, amended. Deleting an entry that the caller does not own (or that does not exist)
  leaves the store unchanged, and no error is raised: the statement succeeds on zero
  rows and \<^verbatim>\<open>deleteEntry\<close> shows its success toast.
\<close>

theorem delete_foreign_entry_changes_nothing:
  assumes "\<forall>r\<in>set (time_entries db). te_id r = entryId \<longrightarrow> user \<noteq> Some (te_user_id r)"
  shows "delete_time_entry db (browser_session user) entryId = Inr db
         \<and> deleteEntry db user entryId = (Some (ToastSuccess ''Time entry deleted''), db)"
proof -
  have "filter (\<lambda>r. \<not> (te_id r = entryId \<and> time_entries_write_policy (browser_session user) r
                          \<and> time_entries_select_policy db (browser_session user) r))
          (time_entries db) = time_entries db"
    using assms
    by (auto simp: filter_id_conv time_entries_write_policy_def owns_time_entry_def
                   browser_session_def)
  then have "delete_time_entry db (browser_session user) entryId = Inr db"
    by (simp add: delete_time_entry_def)
  then show ?thesis by (simp add: deleteEntry_def)
qed

theorem delete_foreign_entry_changes_nothing_witness:
  "101 \<in> te_id ` set (time_entries demo_db2)
   \<and> delete_time_entry demo_db2 (browser_session (Some 8)) 101 = Inr demo_db2
   \<and> deleteEntry demo_db2 (Some 8) 101 = (Some (ToastSuccess ''Time entry deleted''), demo_db2)"
proof -
  have h: "\<forall>r\<in>set (time_entries demo_db2). te_id r = 101 \<longrightarrow> Some 8 \<noteq> Some (te_user_id r)"
    by (simp add: demo_defs)
  have m: "101 \<in> te_id ` set (time_entries demo_db2)" by (simp add: demo_defs)
  from delete_foreign_entry_changes_nothing[OF h] m show ?thesis by simp
qed


section \<open>The listing\<close>

lemma set_insert_desc: "set (insert_desc x ys) = insert x (set ys)"
  by (induction ys) auto

lemma set_order_by_start_time_desc: "set (order_by_start_time_desc xs) = set xs"
  unfolding order_by_start_time_desc_def by (induction xs) (simp_all add: set_insert_desc)

lemma start_desc_total: "start_desc a b \<or> start_desc b a"
  by (auto simp: start_desc_def split: option.splits)

lemma start_desc_trans: "start_desc a b \<Longrightarrow> start_desc b c \<Longrightarrow> start_desc a c"
  by (auto simp: start_desc_def split: option.splits)

lemma sorted_insert_desc:
  "sorted_wrt (\<lambda>a b. start_desc (d_start_time a) (d_start_time b)) ys \<Longrightarrow>
   sorted_wrt (\<lambda>a b. start_desc (d_start_time a) (d_start_time b)) (insert_desc x ys)"
proof (induction ys)
  case Nil
  then show ?case by simp
next
  case (Cons y ys)
  show ?case
  proof (cases "start_desc (d_start_time x) (d_start_time y)")
    case True
    with Cons.prems show ?thesis by (auto intro: start_desc_trans)
  next
    case False
    then have "start_desc (d_start_time y) (d_start_time x)"
      using start_desc_total by blast
    with False Cons show ?thesis by (auto simp: set_insert_desc)
  qed
qed

lemma sorted_order_by_start_time_desc:
  "sorted_wrt (\<lambda>a b. start_desc (d_start_time a) (d_start_time b)) (order_by_start_time_desc xs)"
  unfolding order_by_start_time_desc_def by (induction xs) (simp_all add: sorted_insert_desc)

lemma in_details_list:
  assumes "d \<in> set (get_time_entries_with_details db sess pp ps pe)"
  shows "\<exists>te p. te \<in> set (time_entries db) \<and> projects db (te_project_id te) = Some p
           \<and> where_clause sess pp ps pe te p \<and> d = details te p"
proof -
  from assms obtain te where te: "te \<in> set (time_entries db)"
    and d: "d \<in> set (case projects db (te_project_id te) of
            None \<Rightarrow> []
          | Some p \<Rightarrow> if where_clause sess pp ps pe te p then [details te p] else [])"
    by (auto simp: get_time_entries_with_details_def set_order_by_start_time_desc)
  then obtain p where "projects db (te_project_id te) = Some p"
    "where_clause sess pp ps pe te p" "d = details te p"
    by (cases "projects db (te_project_id te)") (auto split: if_splits)
  with te show ?thesis by blast
qed

lemma where_clause_owner: "where_clause sess pp ps pe te p \<Longrightarrow> auth_uid sess = Some (p_user_id p)"
  by (simp add: where_clause_def)

text \<open>
  C10. Every row that \<^verbatim>\<open>get_time_entries_with_details\<close> returns belongs to a project
  whose owner is the caller. An entry that the caller created on a project of another
  user passes the SELECT policy of \<^verbatim>\<open>time_entries\<close>, and yet neither its row nor any
  row of that project is returned. The rows come in descending order of \<^verbatim>\<open>start_time\<close>.
\<close>

theorem list_entries_only_own_projects:
  "(\<forall>d\<in>set (get_time_entries_with_details db sess pp ps pe).
      \<exists>p. projects db (d_project_id d) = Some p \<and> auth_uid sess = Some (p_user_id p))
   \<and> (\<forall>te\<in>set (time_entries db). \<forall>p.
         auth_uid sess = Some (te_user_id te) \<and> projects db (te_project_id te) = Some p
         \<and> auth_uid sess \<noteq> Some (p_user_id p)
       \<longrightarrow> time_entries_select_policy db sess te
           \<and> details te p \<notin> set (get_time_entries_with_details db sess pp ps pe)
           \<and> te_project_id te \<notin> d_project_id ` set (get_time_entries_with_details db sess pp ps pe))
   \<and> sorted_wrt (\<lambda>a b. start_desc (d_start_time a) (d_start_time b))
        (get_time_entries_with_details db sess pp ps pe)"
proof (intro conjI ballI allI impI)
  fix d assume "d \<in> set (get_time_entries_with_details db sess pp ps pe)"
  then obtain te p where "projects db (te_project_id te) = Some p"
    "where_clause sess pp ps pe te p" "d = details te p"
    using in_details_list by blast
  then show "\<exists>p. projects db (d_project_id d) = Some p \<and> auth_uid sess = Some (p_user_id p)"
    by (auto simp: details_def dest: where_clause_owner)
next
  fix te :: time_entry and p :: project
  assume a: "auth_uid sess = Some (te_user_id te) \<and> projects db (te_project_id te) = Some p
         \<and> auth_uid sess \<noteq> Some (p_user_id p)"
  then show "time_entries_select_policy db sess te"
    by (simp add: time_entries_select_policy_def owns_time_entry_def)
  have no: "d_project_id d \<noteq> te_project_id te"
    if "d \<in> set (get_time_entries_with_details db sess pp ps pe)" for d
  proof -
    from that obtain te' p' where "projects db (te_project_id te') = Some p'"
      "where_clause sess pp ps pe te' p'" "d = details te' p'"
      using in_details_list by blast
    with a show ?thesis by (auto simp: details_def dest: where_clause_owner)
  qed
  then show "te_project_id te \<notin> d_project_id ` set (get_time_entries_with_details db sess pp ps pe)"
    by (metis (no_types, lifting) imageE)
  from no[of "details te p"]
  show "details te p \<notin> set (get_time_entries_with_details db sess pp ps pe)"
    by (auto simp: details_def)
next
  show "sorted_wrt (\<lambda>a b. start_desc (d_start_time a) (d_start_time b))
        (get_time_entries_with_details db sess pp ps pe)"
    unfolding get_time_entries_with_details_def by (rule sorted_order_by_start_time_desc)
qed


definition demo_p30 :: project where
  "demo_p30 = \<lparr>p_name = ''R'', p_user_id = 8, p_hourly_rate = Some 80\<rparr>"

definition demo_foreign :: time_entry where
  \<comment> \<open>an entry of user 7 on project 30, which user 8 owns\<close>
  "demo_foreign = \<lparr>te_id = 104, te_user_id = 7, te_project_id = 30, te_task_id = None,
     te_entry_type = Manual, te_start_time = Some 7200000000, te_end_time = Some 9000000000,
     te_duration_seconds = Some 1800, te_billable = Some False, te_hourly_rate = None,
     te_is_running = Some False\<rparr>"

definition demo_db_shared :: database where
  "demo_db_shared =
     \<lparr>time_entries = [demo_e1_stopped, demo_e2_stopped, demo_foreign],
      projects = demo_projects(30 \<mapsto> demo_p30), project_assignments = []\<rparr>"

lemma demo_listing:
  "get_time_entries_with_details demo_db_shared (browser_session (Some 7)) None None None
     = [details demo_e2_stopped \<lparr>p_name = ''Q'', p_user_id = 7, p_hourly_rate = None\<rparr>,
        details demo_e1_stopped \<lparr>p_name = ''P'', p_user_id = 7, p_hourly_rate = Some 50\<rparr>]"
  by (simp add: get_time_entries_with_details_def where_clause_def order_by_start_time_desc_def
        start_desc_def details_def browser_session_def demo_db_shared_def demo_p30_def
        demo_foreign_def demo_e2_stopped_def demo_defs)

theorem list_entries_only_own_projects_witness:
  "demo_foreign \<in> set (time_entries demo_db_shared)
   \<and> auth_uid (browser_session (Some 7)) = Some (te_user_id demo_foreign)
   \<and> projects demo_db_shared (te_project_id demo_foreign) = Some demo_p30
   \<and> auth_uid (browser_session (Some 7)) \<noteq> Some (p_user_id demo_p30)
   \<and> time_entries_select_policy demo_db_shared (browser_session (Some 7)) demo_foreign
   \<and> details demo_foreign demo_p30
        \<notin> set (get_time_entries_with_details demo_db_shared (browser_session (Some 7))
                  None None None)
   \<and> length (get_time_entries_with_details demo_db_shared (browser_session (Some 7))
                None None None) = 2
   \<and> sorted_wrt (\<lambda>a b. start_desc (d_start_time a) (d_start_time b))
        (get_time_entries_with_details demo_db_shared (browser_session (Some 7)) None None None)"
proof -
  let ?sess = "browser_session (Some 7)"
  have m: "demo_foreign \<in> set (time_entries demo_db_shared)" by (simp add: demo_db_shared_def)
  have h: "auth_uid ?sess = Some (te_user_id demo_foreign)
      \<and> projects demo_db_shared (te_project_id demo_foreign) = Some demo_p30
      \<and> auth_uid ?sess \<noteq> Some (p_user_id demo_p30)"
    by (simp add: browser_session_def demo_foreign_def demo_db_shared_def demo_p30_def)
  have l: "length (get_time_entries_with_details demo_db_shared ?sess None None None) = 2"
    by (simp add: demo_listing)
  note t = list_entries_only_own_projects[of demo_db_shared ?sess None None None]
  from t have "\<forall>te\<in>set (time_entries demo_db_shared). \<forall>p.
         auth_uid ?sess = Some (te_user_id te) \<and> projects demo_db_shared (te_project_id te) = Some p
         \<and> auth_uid ?sess \<noteq> Some (p_user_id p)
       \<longrightarrow> time_entries_select_policy demo_db_shared ?sess te
           \<and> details te p \<notin> set (get_time_entries_with_details demo_db_shared ?sess None None None)
           \<and> te_project_id te \<notin> d_project_id ` set (get_time_entries_with_details demo_db_shared ?sess None None None)"
    by (elim conjE)
  with m h have "time_entries_select_policy demo_db_shared ?sess demo_foreign
           \<and> details demo_foreign demo_p30
               \<notin> set (get_time_entries_with_details demo_db_shared ?sess None None None)"
    by blast
  moreover from t have "sorted_wrt (\<lambda>a b. start_desc (d_start_time a) (d_start_time b))
        (get_time_entries_with_details demo_db_shared ?sess None None None)"
    by (elim conjE)
  ultimately show ?thesis using m h l by blast
qed








end
